theory Spec2Isabelle
  imports Complex_Main "HOL-Library.Log_Nat"
begin

section \<open>JavaScript numbers\<close>

text \<open>
  The component computes with JavaScript numbers, that is IEEE 754 binary64 values.
  A number is \<open>NaN\<close>, an infinity with its sign, or a finite value given by its sign
  (\<open>True\<close> for negative, so that \<open>Fin True 0\<close> is the negative zero) and its magnitude,
  a non-negative rational that binary64 represents exactly. Every arithmetic operation
  computes the exact rational result and rounds it to the nearest binary64 value, ties
  to the even significand, as the standard prescribes.
\<close>

datatype jsnum = NaN | Infty bool | Fin bool rat

text \<open>The exponent of a positive rational: \<open>2 powi flog2 q \<le> q < 2 powi (flog2 q + 1)\<close>.\<close>

definition flog2 :: "rat \<Rightarrow> int" where
  "flog2 q = (if 1 \<le> q then bitlen \<lfloor>q\<rfloor> - 1 else - bitlen (\<lceil>1 / q\<rceil> - 1))"

text \<open>Rounding to the nearest integer, a tie going to the even neighbour.\<close>

definition round_half_even :: "rat \<Rightarrow> int" where
  "round_half_even x =
     (let f = \<lfloor>x\<rfloor>; d = x - of_int f
      in if d < 1 / 2 then f
         else if 1 / 2 < d then f + 1
         else if even f then f else f + 1)"

text \<open>
  Rounding a non-negative rational to binary64 with an unbounded exponent above: to
  a multiple of \<open>2 powi p\<close>, where \<open>p\<close> leaves a significand of 53 bits and is at
  least \<open>-1074\<close>, the spacing of the subnormal numbers.
\<close>

definition quantize :: "int \<Rightarrow> rat \<Rightarrow> rat" where
  "quantize p q = of_int (round_half_even (q / 2 powi p)) * 2 powi p"

definition rn :: "rat \<Rightarrow> rat" where
  "rn q = (if q \<le> 0 then 0 else quantize (max (flog2 q - 52) (- 1074)) q)"

text \<open>A rounded magnitude of \<open>2 ^ 1024\<close> or more overflows to the infinity of its sign.\<close>

definition bin64 :: "bool \<Rightarrow> rat \<Rightarrow> jsnum" where
  "bin64 s q = (let m = rn q in if 2 ^ 1024 \<le> m then Infty s else Fin s m)"

text \<open>
  The magnitudes that binary64 represents are the fixed points of the rounding below
  \<open>2 ^ 1024\<close>; a number is valid when its magnitude, if finite, is one of them.
\<close>

definition is_double :: "rat \<Rightarrow> bool" where
  "is_double a \<longleftrightarrow> 0 \<le> a \<and> a < 2 ^ 1024 \<and> rn a = a"

definition valid :: "jsnum \<Rightarrow> bool" where
  "valid x = (case x of Fin s a \<Rightarrow> is_double a | _ \<Rightarrow> True)"

text \<open>
  The number of a non-negative integer such as an array index or an array length. It
  is exact below \<open>2 ^ 53\<close>, and an array has fewer than \<open>2 ^ 32\<close> elements.
\<close>

definition Num :: "nat \<Rightarrow> jsnum" where
  "Num n = Fin False (of_nat n)"

text \<open>The operators \<open>/\<close> and \<open>*\<close> on numbers.\<close>

fun js_div :: "jsnum \<Rightarrow> jsnum \<Rightarrow> jsnum" where
  "js_div NaN y = NaN"
| "js_div x NaN = NaN"
| "js_div (Infty s) (Infty t) = NaN"
| "js_div (Infty s) (Fin t b) = Infty (s \<noteq> t)"
| "js_div (Fin s a) (Infty t) = Fin (s \<noteq> t) 0"
| "js_div (Fin s a) (Fin t b) =
     (if b = 0 then (if a = 0 then NaN else Infty (s \<noteq> t))
      else bin64 (s \<noteq> t) (a / b))"

fun js_mul :: "jsnum \<Rightarrow> jsnum \<Rightarrow> jsnum" where
  "js_mul NaN y = NaN"
| "js_mul x NaN = NaN"
| "js_mul (Infty s) (Infty t) = Infty (s \<noteq> t)"
| "js_mul (Infty s) (Fin t b) = (if b = 0 then NaN else Infty (s \<noteq> t))"
| "js_mul (Fin s a) (Infty t) = (if a = 0 then NaN else Infty (s \<noteq> t))"
| "js_mul (Fin s a) (Fin t b) = bin64 (s \<noteq> t) (a * b)"

text \<open>
  \<open>Math.round\<close>: the integer nearest to the argument, a tie going towards positive
  infinity; a zero result keeps the sign of the argument.
\<close>

fun Math_round :: "jsnum \<Rightarrow> jsnum" where
  "Math_round NaN = NaN"
| "Math_round (Infty s) = Infty s"
| "Math_round (Fin s a) =
     (let r = \<lfloor>(if s then - a else a) + 1 / 2\<rfloor>
      in Fin (if r = 0 then s else r < 0) (of_int \<bar>r\<bar>))"

section \<open>Numbers as text\<close>

text \<open>Decimal digits of a natural number, as \<open>`Head ${idx}`\<close> prints an array index.\<close>

definition digit_char :: "nat \<Rightarrow> char" where
  "digit_char d = ''0123456789'' ! d"

fun dec :: "nat \<Rightarrow> string" where
  "dec n = (if n < 10 then [digit_char n] else dec (n div 10) @ [digit_char (n mod 10)])"

declare dec.simps [simp del]

text \<open>The decimal exponent of a positive rational: \<open>10 powi flog10 q \<le> q < 10 powi (flog10 q + 1)\<close>.\<close>

definition flog10 :: "rat \<Rightarrow> int" where
  "flog10 q =
     (if 1 \<le> q then int (length (dec (nat \<lfloor>q\<rfloor>))) - 1
      else - int (length (dec (nat (\<lceil>1 / q\<rceil> - 1)))))"

text \<open>
  \<open>Number::toString\<close> of ECMAScript writes a positive finite number \<open>a\<close> from integers
  \<open>n\<close>, \<open>k\<close> and \<open>s\<close> with \<open>10 ^ (k - 1) \<le> s < 10 ^ k\<close>, such that \<open>s * 10 powi (n - k)\<close>
  rounds to \<open>a\<close> and \<open>k\<close> is as small as possible; among several choices the one
  nearest to \<open>a\<close>, and then an even \<open>s\<close>. Seventeen digits always suffice.
\<close>

definition digit_candidates :: "rat \<Rightarrow> nat \<Rightarrow> int \<Rightarrow> (int \<times> int) list" where
  "digit_candidates a k n =
     (let u = 10 powi (n - int k); s0 = \<lfloor>a / u\<rfloor>
      in filter (\<lambda>(s, m). 10 ^ (k - 1) \<le> s \<and> s < 10 ^ k \<and>
                   bin64 False (of_int s * u) = Fin False a)
           [(s0, n), (s0 + 1, n)])"

definition closer :: "rat \<Rightarrow> nat \<Rightarrow> int \<times> int \<Rightarrow> int \<times> int \<Rightarrow> int \<times> int" where
  "closer a k c d =
     (let dist = (\<lambda>(s, n). \<bar>of_int s * 10 powi (n - int k) - a\<bar>)
      in if dist d < dist c \<or> (dist d = dist c \<and> even (fst d) \<and> odd (fst c)) then d else c)"

definition shortest_digits :: "rat \<Rightarrow> int \<times> nat \<times> int" where
  "shortest_digits a =
     (let n0 = flog10 a + 1;
          cands = (\<lambda>k. digit_candidates a k n0 @ digit_candidates a k (n0 + 1))
      in case filter (\<lambda>k. cands k \<noteq> []) [1 ..< 18] of
           [] \<Rightarrow> (\<lfloor>a / 10 powi (n0 - 17)\<rfloor>, 17, n0)
         | k # _ \<Rightarrow> (case foldl (closer a k) (hd (cands k)) (tl (cands k)) of
                       (s, n) \<Rightarrow> (s, k, n)))"

definition positive_toString :: "rat \<Rightarrow> string" where
  "positive_toString a =
     (case shortest_digits a of (s, k, n) \<Rightarrow>
        let ds = dec (nat s) in
        if - 5 \<le> n \<and> n \<le> 21 then
          (if int k \<le> n then ds @ replicate (nat n - k) (CHR ''0'')
           else if 0 < n then take (nat n) ds @ ''.'' @ drop (nat n) ds
           else ''0.'' @ replicate (nat (- n)) (CHR ''0'') @ ds)
        else
          (let e = n - 1; sgn = (if e < 0 then ''-'' else ''+'')
           in if k = 1 then ds @ ''e'' @ sgn @ dec (nat \<bar>e\<bar>)
              else take 1 ds @ ''.'' @ drop 1 ds @ ''e'' @ sgn @ dec (nat \<bar>e\<bar>)))"

text \<open>
  The text of a number in a template literal. An integer below \<open>2 ^ 53\<close> is written
  with all its decimal digits: there the shortest digits, padded with zeros, are the
  digits of the integer.
\<close>

definition Number_toString :: "jsnum \<Rightarrow> string" where
  "Number_toString x =
     (case x of
        NaN \<Rightarrow> ''NaN''
      | Infty s \<Rightarrow> (if s then ''-Infinity'' else ''Infinity'')
      | Fin s a \<Rightarrow>
          if a = 0 then ''0''
          else (if s then ''-'' else []) @
               (if of_int \<lfloor>a\<rfloor> = a \<and> a < 2 ^ 53 then dec (nat \<lfloor>a\<rfloor>)
                else positive_toString a))"

section \<open>The colour of an attention head\<close>

text \<open>
  \<open>attentionHeadColor(idx, numberOfHeads, alpha = "100%")\<close>. An argument left out
  is \<open>None\<close> and takes the default of the parameter.
\<close>

definition attentionHeadColor :: "jsnum \<Rightarrow> jsnum \<Rightarrow> string option \<Rightarrow> string" where
  "attentionHeadColor idx numberOfHeads alpha_arg =
     (let alpha = (case alpha_arg of None \<Rightarrow> ''100%'' | Some a \<Rightarrow> a);
          hue = Math_round (js_mul (js_div idx numberOfHeads) (Num 360))
      in ''hsla('' @ Number_toString hue @ '', 70%, 50%,  '' @ alpha @ '')'')"

text \<open>
  The hue in the words of the specification, \<open>round((index / headCount) * 360)\<close>, for
  an index and a count of heads that are natural numbers: the quotient and the product
  are each rounded to binary64, and \<open>round\<close> is \<open>Math.round\<close>.
\<close>

definition spec_hue :: "nat \<Rightarrow> nat \<Rightarrow> nat" where
  "spec_hue index headCount =
     nat \<lfloor>rn (rn (of_nat index / of_nat headCount) * 360) + 1 / 2\<rfloor>"

section \<open>The hover and lock state\<close>

text \<open>
  Modelled from the spec: the hook \<open>useHoverLock\<close> of \<open>./components/useHoverLock\<close> is
  imported by the component and is not among the sources. The state of one instance,
  after section 4.1 of the specification: the focused index, if any, and the lock flag;
  with them the default index given at initialisation and the index under the pointer
  (the current hover), which unlocking falls back to.
\<close>

record hover_lock =
  default_index :: "nat option"
  hover :: "nat option"
  focus :: "nat option"
  lock :: bool

text \<open>
  Modelled from the spec: \<open>initialize(defaultIndex)\<close> of the missing hook, the call
  \<open>useHoverLock(defaultIndex)\<close> on first render: sets the initial focus to the default
  index (or unset) and the lock to false.
\<close>

definition useHoverLock :: "nat option \<Rightarrow> hover_lock" where
  "useHoverLock defaultIndex =
     \<lparr>default_index = defaultIndex, hover = None, focus = defaultIndex, lock = False\<rparr>"

text \<open>
  Modelled from the spec: \<open>onMouseEnter(index)\<close> of the missing hook: if not locked,
  sets the focus to the index; if locked, no effect on the focus.
\<close>

definition onMouseEnter :: "nat \<Rightarrow> hover_lock \<Rightarrow> hover_lock" where
  "onMouseEnter index st =
     st\<lparr>hover := Some index, focus := (if lock st then focus st else Some index)\<rparr>"

text \<open>
  Modelled from the spec: \<open>onMouseLeave()\<close> of the missing hook: if not locked, clears
  the focus back to no focus, or to the configured default; if locked, no effect.
\<close>

definition onMouseLeave :: "hover_lock \<Rightarrow> hover_lock" where
  "onMouseLeave st =
     st\<lparr>hover := None, focus := (if lock st then focus st else default_index st)\<rparr>"

text \<open>
  Modelled from the spec: \<open>onClick(index)\<close> of the missing hook: if unlocked or locked
  on a different index, sets the focus to the index and the lock to true; if locked on
  the same index, sets the lock to false and falls back to the current hover, if any,
  else to no focus or the default.
\<close>

definition onClick :: "nat \<Rightarrow> hover_lock \<Rightarrow> hover_lock" where
  "onClick index st =
     (if lock st \<and> focus st = Some index
      then st\<lparr>lock := False,
              focus := (case hover st of Some h \<Rightarrow> Some h | None \<Rightarrow> default_index st)\<rparr>
      else st\<lparr>focus := Some index, lock := True\<rparr>)"

text \<open>The pointer events of a region, and a sequence of them applied in order.\<close>

datatype pointer_event = MouseEnter nat | MouseLeave

fun pointer :: "pointer_event \<Rightarrow> hover_lock \<Rightarrow> hover_lock" where
  "pointer (MouseEnter index) st = onMouseEnter index st"
| "pointer MouseLeave st = onMouseLeave st"

definition pointer_events :: "pointer_event list \<Rightarrow> hover_lock \<Rightarrow> hover_lock" where
  "pointer_events evs st = foldl (\<lambda>s e. pointer e s) st evs"

section \<open>The component AttentionHeads\<close>

datatype TokensView = DESTINATION_TO_SOURCE | SOURCE_TO_DESTINATION

text \<open>
  \<open>AttentionHeadsProps\<close>. An optional property that the caller leaves out is \<open>None\<close>.
  The numbers of the tensor are of any type \<open>'a\<close>: the component passes them on and
  never computes with them.
\<close>

record 'a AttentionHeadsProps =
  attention :: "'a list list list"
  attentionHeadNames :: "string list option"
  maxValue :: "'a option"
  minValue :: "'a option"
  negativeColor :: "string option"
  positiveColor :: "string option"
  maskUpperTri :: "bool option"
  showAxisLabels :: "bool option"
  showTokens :: "bool option"
  tokens :: "string list"

text \<open>
  The state of the component: the hook of the heads, the view of the tokens and the
  hook of the tokens, as the three hook calls at the head of \<open>AttentionHeads\<close> create
  them on first render.
\<close>

record AttentionHeads_state =
  heads_hook :: hover_lock
  tokensView :: TokensView
  tokens_hook :: hover_lock

definition first_render :: AttentionHeads_state where
  "first_render =
     \<lparr>heads_hook = useHoverLock (Some 0),
      tokensView = DESTINATION_TO_SOURCE,
      tokens_hook = useHoverLock None\<rparr>"

text \<open>
  The events the component wires: the handlers of the first hook go to the cells of the
  selector, those of the second hook to the tokens, and the \<open>select\<close> element calls
  \<open>setTokensView\<close> with the value chosen.
\<close>

datatype event =
    HeadClick nat | HeadMouseEnter nat | HeadMouseLeave
  | TokenClick nat | TokenMouseEnter nat | TokenMouseLeave
  | SelectChange TokensView

fun handle :: "event \<Rightarrow> AttentionHeads_state \<Rightarrow> AttentionHeads_state" where
  "handle (HeadClick idx) st = st\<lparr>heads_hook := onClick idx (heads_hook st)\<rparr>"
| "handle (HeadMouseEnter idx) st = st\<lparr>heads_hook := onMouseEnter idx (heads_hook st)\<rparr>"
| "handle HeadMouseLeave st = st\<lparr>heads_hook := onMouseLeave (heads_hook st)\<rparr>"
| "handle (TokenClick idx) st = st\<lparr>tokens_hook := onClick idx (tokens_hook st)\<rparr>"
| "handle (TokenMouseEnter idx) st = st\<lparr>tokens_hook := onMouseEnter idx (tokens_hook st)\<rparr>"
| "handle TokenMouseLeave st = st\<lparr>tokens_hook := onMouseLeave (tokens_hook st)\<rparr>"
| "handle (SelectChange v) st = st\<lparr>tokensView := v\<rparr>"

subsection \<open>The colours of the tokens\<close>

text \<open>
  The body of the memoised \<open>coloredAttention\<close>. The reduction \<open>colorAttentionTensors\<close>
  is imported from another module and is a parameter here. The tensor is an option
  because the body tests \<open>!attention\<close>. The result is \<open>None\<close> for \<open>null\<close>; beside it
  stands the list of the tensors the reduction was called with.
\<close>

definition coloredAttention ::
  "('a list list list \<Rightarrow> 'c) \<Rightarrow> bool \<Rightarrow> 'a list list list option
     \<Rightarrow> 'c option \<times> 'a list list list list" where
  "coloredAttention colorAttentionTensors showTks att_arg =
     (case att_arg of
        None \<Rightarrow> (None, [])
      | Some att \<Rightarrow>
          if \<not> showTks \<or> length att = 0 then (None, [])
          else
            let numHeads = length att;
                numDestTokens = (case att of [] \<Rightarrow> 0 | m # _ \<Rightarrow> length m);
                numSrcTokens = (case att of [] \<Rightarrow> 0
                                | m # _ \<Rightarrow> (case m of [] \<Rightarrow> 0 | r # _ \<Rightarrow> length r))
            in if numDestTokens = 0 \<or> numSrcTokens = 0 \<or> numHeads = 0 then (None, [])
               else (Some (colorAttentionTensors att), [att]))"

text \<open>
  The shape of a tensor in the data model of the specification: \<open>h\<close> heads, each of
  \<open>d\<close> destination positions, each of \<open>s\<close> source positions.
\<close>

definition has_shape :: "'a list list list \<Rightarrow> nat \<Rightarrow> nat \<Rightarrow> nat \<Rightarrow> bool" where
  "has_shape att h d s \<longleftrightarrow>
     length att = h \<and> list_all (\<lambda>m. length m = d \<and> list_all (\<lambda>r. length r = s) m) att"

subsection \<open>What the component renders\<close>

text \<open>
  Reading an array at an index that may be \<open>undefined\<close> or out of range gives
  \<open>undefined\<close>, here \<open>None\<close>. A focus that is unset is \<open>undefined\<close>, which as a number
  is \<open>NaN\<close>.
\<close>

definition at_index :: "'b list \<Rightarrow> nat option \<Rightarrow> 'b option" where
  "at_index xs f =
     (case f of None \<Rightarrow> None | Some i \<Rightarrow> if i < length xs then Some (xs ! i) else None)"

definition index_number :: "nat option \<Rightarrow> jsnum" where
  "index_number f = (case f of None \<Rightarrow> NaN | Some i \<Rightarrow> Num i)"

text \<open>The properties an \<open>AttentionPattern\<close> element is given.\<close>

record 'a AttentionPattern_props =
  ap_attention :: "'a list list option"
  ap_tokens :: "string list"
  ap_showAxisLabels :: "bool option"
  ap_maxValue :: "'a option"
  ap_minValue :: "'a option"
  ap_negativeColor :: "string option"
  ap_positiveColor :: "string option"
  ap_zoomed :: "bool option"
  ap_maskUpperTri :: "bool option"

text \<open>One cell of the selector: the index its handlers pass on, its styles, its label.\<close>

record 'a head_cell =
  cell_key :: nat
  cell_borderColor :: string
  cell_boxShadow :: "string option"
  cell_label_background :: string
  cell_label :: "string option"
  cell_pattern :: "'a AttentionPattern_props"

definition AttentionHeadsSelector ::
  "'a AttentionHeadsProps \<Rightarrow> string list \<Rightarrow> nat option \<Rightarrow> 'a head_cell list" where
  "AttentionHeadsSelector props names focused =
     map (\<lambda>(headAttention, idx).
            let isFocused = (focused = Some idx);
                n = Num (length (attention props))
            in \<lparr>cell_key = idx,
                cell_borderColor = attentionHeadColor (Num idx) n None,
                cell_boxShadow =
                  (if isFocused
                   then Some (''0px 0px 4px 3px '' @ attentionHeadColor (Num idx) n (Some ''60%''))
                   else None),
                cell_label_background = attentionHeadColor (Num idx) n None,
                cell_label = at_index names (Some idx),
                cell_pattern =
                  \<lparr>ap_attention = Some headAttention,
                   ap_tokens = tokens props,
                   ap_showAxisLabels = Some False,
                   ap_maxValue = maxValue props,
                   ap_minValue = minValue props,
                   ap_negativeColor = negativeColor props,
                   ap_positiveColor = positiveColor props,
                   ap_zoomed = None,
                   ap_maskUpperTri = maskUpperTri props\<rparr>\<rparr>)
         (zip (attention props) [0 ..< length (attention props)])"

text \<open>
  The zoomed view, the properties of \<open>Tokens\<close>, and the whole output. In the heading
  \<open>{headNames[focused]} Zoomed\<close> a name that is \<open>undefined\<close> renders as nothing. The
  result of the reduction is taken to be truthy, as an array is.
\<close>

record 'a zoomed_view =
  zoom_title :: string
  zoom_label_background :: string
  zoom_label :: "string option"
  zoom_pattern :: "'a AttentionPattern_props"

record 'c Tokens_props =
  tk_coloredAttention :: 'c
  tk_focusedHead :: "nat option"
  tk_focusedToken :: "nat option"
  tk_tokens :: "string list"
  tk_tokensView :: TokensView

record ('a, 'c) AttentionHeads_view =
  view_selector :: "'a head_cell list"
  view_zoomed :: "'a zoomed_view"
  view_tokens :: "'c Tokens_props option"

text \<open>
  The names of the heads: \<open>attentionHeadNames || attention.map((_, idx) => `Head ${idx}`)\<close>.
  An array is truthy, also an empty one.
\<close>

definition headNames :: "'a AttentionHeadsProps \<Rightarrow> string list" where
  "headNames props =
     (case attentionHeadNames props of
        Some names \<Rightarrow> names
      | None \<Rightarrow> map (\<lambda>idx. ''Head '' @ Number_toString (Num idx))
                  [0 ..< length (attention props)])"

definition AttentionHeads ::
  "('a list list list \<Rightarrow> 'c) \<Rightarrow> 'a AttentionHeadsProps \<Rightarrow> AttentionHeads_state
     \<Rightarrow> ('a, 'c) AttentionHeads_view" where
  "AttentionHeads colorAttentionTensors props st =
     (let maskUpper = (case maskUpperTri props of None \<Rightarrow> True | Some b \<Rightarrow> b);
          showTks = (case showTokens props of None \<Rightarrow> True | Some b \<Rightarrow> b);
          focused = focus (heads_hook st);
          focussedToken = focus (tokens_hook st);
          names = headNames props;
          colored = fst (coloredAttention colorAttentionTensors showTks (Some (attention props)))
      in \<lparr>view_selector =
            AttentionHeadsSelector (props\<lparr>maskUpperTri := Some maskUpper\<rparr>) names focused,
          view_zoomed =
            \<lparr>zoom_title =
               (case at_index names focused of None \<Rightarrow> [] | Some name \<Rightarrow> name) @ '' Zoomed'',
             zoom_label_background =
               attentionHeadColor (index_number focused) (Num (length (attention props))) None,
             zoom_label = at_index names focused,
             zoom_pattern =
               \<lparr>ap_attention = at_index (attention props) focused,
                ap_tokens = tokens props,
                ap_showAxisLabels = None,
                ap_maxValue = maxValue props,
                ap_minValue = minValue props,
                ap_negativeColor = negativeColor props,
                ap_positiveColor = positiveColor props,
                ap_zoomed = Some True,
                ap_maskUpperTri = Some maskUpper\<rparr>\<rparr>,
          view_tokens =
            (if showTks
             then (case colored of
                     None \<Rightarrow> None
                   | Some c \<Rightarrow>
                       Some \<lparr>tk_coloredAttention = c,
                             tk_focusedHead = focused,
                             tk_focusedToken = focussedToken,
                             tk_tokens = tokens props,
                             tk_tokensView = tokensView st\<rparr>)
             else None)\<rparr>)"

section \<open>Rounding: order, grid and error\<close>

text \<open>
  The rounding to the nearest integer stays within a half of its argument, fixes the
  integers and is monotone.
\<close>

lemma round_half_even_of_int: "round_half_even (of_int n) = n"
  by (simp add: round_half_even_def)

lemma round_half_even_range:
  "of_int (round_half_even x) \<le> x + 1 / 2 \<and> x - 1 / 2 \<le> of_int (round_half_even x)"
  unfolding round_half_even_def Let_def
  by (auto simp: not_less) linarith+

lemma round_half_even_floor_le: "\<lfloor>x\<rfloor> \<le> round_half_even x"
  by (simp add: round_half_even_def Let_def)

lemma round_half_even_le_floor: "round_half_even x \<le> \<lfloor>x\<rfloor> + 1"
  by (simp add: round_half_even_def Let_def)

lemma round_half_even_mono:
  assumes "x \<le> y"
  shows "round_half_even x \<le> round_half_even y"
proof (cases "\<lfloor>x\<rfloor> = \<lfloor>y\<rfloor>")
  case True
  with assms show ?thesis
    by (auto simp: round_half_even_def Let_def)
next
  case False
  with assms have "\<lfloor>x\<rfloor> + 1 \<le> \<lfloor>y\<rfloor>"
    using floor_mono [of x y] by linarith
  with round_half_even_le_floor [of x] round_half_even_floor_le [of y]
  show ?thesis by linarith
qed

lemma round_half_even_nearest:
  assumes "\<bar>x - of_int m\<bar> < 1 / 2"
  shows "round_half_even x = m"
proof -
  from round_half_even_range [of x] assms
  have "\<bar>(of_int (round_half_even x) :: rat) - of_int m\<bar> < 1" by linarith
  then have "\<bar>round_half_even x - m\<bar> < 1"
    by (metis of_int_abs of_int_diff of_int_less_iff of_int_1)
  then show ?thesis by linarith
qed

text \<open>
  The exponent \<open>flog2\<close> encloses its argument between two powers of two, which
  determines it.
\<close>

lemma pow2_mono: "a \<le> b \<Longrightarrow> (2::rat) powi a \<le> 2 powi b"
  by (rule power_int_increasing) simp_all

lemma pow2_pos: "0 < (2::rat) powi a"
  by (simp add: zero_less_power_int)

lemma pow2_less_cancel: "(2::rat) powi a < 2 powi b \<Longrightarrow> a < b"
  using pow2_mono [of b a] by (cases "a < b") auto

lemma flog2_bounds_ge1:
  assumes "1 \<le> q"
  shows "2 powi flog2 q \<le> q \<and> q < 2 powi (flog2 q + 1)"
proof -
  define m where "m = \<lfloor>q\<rfloor>"
  have m: "0 < m" using assms by (simp add: m_def)
  have e: "flog2 q = bitlen m - 1" using assms by (simp add: flog2_def m_def)
  have b1: "1 \<le> bitlen m" using m by (simp add: bitlen_alt_def)
  from bitlen_bounds [OF m]
  have lo: "2 ^ nat (bitlen m - 1) \<le> m" and hi: "m < 2 ^ nat (bitlen m)" by simp_all
  have "(2::rat) powi (bitlen m - 1) = of_int (2 ^ nat (bitlen m - 1))"
    using b1 by (simp add: power_int_def)
  also have "\<dots> \<le> of_int m" using lo by (simp only: of_int_le_iff)
  also have "\<dots> \<le> q" by (simp add: m_def)
  finally have A: "2 powi flog2 q \<le> q" by (simp add: e)
  have "m + 1 \<le> 2 ^ nat (bitlen m)" using hi by simp
  then have "(of_int (m + 1) :: rat) \<le> of_int (2 ^ nat (bitlen m))"
    by (simp only: of_int_le_iff)
  moreover have "q < of_int (m + 1)" unfolding m_def by linarith
  moreover have "(2::rat) powi (bitlen m - 1 + 1) = of_int (2 ^ nat (bitlen m))"
    using b1 by (simp add: power_int_def)
  ultimately have B: "q < 2 powi (flog2 q + 1)" by (simp add: e)
  from A B show ?thesis ..
qed

lemma flog2_bounds_lt1:
  assumes "0 < q" "q < 1"
  shows "2 powi flog2 q \<le> q \<and> q < 2 powi (flog2 q + 1)"
proof -
  define m where "m = \<lceil>1 / q\<rceil> - 1"
  have gt1: "1 < 1 / q" using assms by simp
  then have "2 \<le> \<lceil>1 / q\<rceil>" by linarith
  then have m: "0 < m" by (simp add: m_def)
  have e: "flog2 q = - bitlen m" using assms by (simp add: flog2_def m_def)
  have b1: "1 \<le> bitlen m" using m by (simp add: bitlen_alt_def)
  from bitlen_bounds [OF m]
  have lo: "2 ^ nat (bitlen m - 1) \<le> m" and hi: "m < 2 ^ nat (bitlen m)" by simp_all
  have "1 / q \<le> of_int (m + 1)" by (simp add: m_def)
  also have "\<dots> \<le> of_int (2 ^ nat (bitlen m))"
    using hi by (simp only: of_int_le_iff)
  finally have "1 / q \<le> 2 ^ nat (bitlen m)" by simp
  then have "1 \<le> 2 ^ nat (bitlen m) * q"
    using assms(1) by (simp add: field_simps)
  then have A: "2 powi flog2 q \<le> q"
    using b1 by (simp add: e power_int_def field_simps)
  have "(of_int (2 ^ nat (bitlen m - 1)) :: rat) \<le> of_int m"
    using lo by (simp only: of_int_le_iff)
  also have "of_int m < 1 / q" unfolding m_def by linarith
  finally have "2 ^ nat (bitlen m - 1) < 1 / q" by simp
  then have "2 ^ nat (bitlen m - 1) * q < 1"
    using assms(1) by (simp add: field_simps)
  then have "q < 1 / 2 ^ nat (bitlen m - 1)"
    by (simp add: field_simps)
  moreover have "flog2 q + 1 = - (bitlen m - 1)" by (simp add: e)
  moreover have "(2::rat) powi (- (bitlen m - 1)) = 1 / 2 ^ nat (bitlen m - 1)"
    using b1 by (simp only: power_int_minus_divide) (simp add: power_int_nonneg_exp)
  ultimately have B: "q < 2 powi (flog2 q + 1)" by simp
  from A B show ?thesis ..
qed

lemma flog2_bounds:
  assumes "0 < q"
  shows "2 powi flog2 q \<le> q \<and> q < 2 powi (flog2 q + 1)"
  using assms flog2_bounds_ge1 [of q] flog2_bounds_lt1 [of q] by (cases "1 \<le> q") auto

lemma flog2_unique:
  assumes "2 powi e \<le> q" "q < 2 powi (e + 1)"
  shows "flog2 q = e"
proof -
  have q: "0 < q" using assms(1) pow2_pos [of e] by linarith
  note b = flog2_bounds [OF q]
  have "\<not> flog2 q < e"
  proof
    assume "flog2 q < e"
    then have "(2::rat) powi (flog2 q + 1) \<le> 2 powi e" by (intro pow2_mono) simp
    with b assms show False by linarith
  qed
  moreover have "\<not> e < flog2 q"
  proof
    assume "e < flog2 q"
    then have "(2::rat) powi (e + 1) \<le> 2 powi flog2 q" by (intro pow2_mono) simp
    with b assms show False by linarith
  qed
  ultimately show ?thesis by linarith
qed

lemma flog2_mono:
  assumes "0 < q" "q \<le> r"
  shows "flog2 q \<le> flog2 r"
proof (rule ccontr)
  assume "\<not> flog2 q \<le> flog2 r"
  then have "(2::rat) powi (flog2 r + 1) \<le> 2 powi flog2 q" by (intro pow2_mono) simp
  with flog2_bounds [of q] flog2_bounds [of r] assms show False by linarith
qed

text \<open>
  Rounding to binary64 is monotone, fixes the numbers with a significand below
  \<open>2 ^ 53\<close>, and moves a number below \<open>2 powi k\<close> by at most \<open>2 powi (k - 54)\<close>.
  The lemma \<open>rn_computed\<close> evaluates it at a given rational from the exponent and the
  significand.
\<close>

lemma quantize_mono: "x \<le> y \<Longrightarrow> quantize p x \<le> quantize p y"
  unfolding quantize_def
  by (intro mult_right_mono) (simp_all add: round_half_even_mono divide_right_mono pow2_pos less_imp_le)

lemma quantize_grid: "quantize p (of_int n * 2 powi p) = of_int n * 2 powi p"
  by (simp add: quantize_def round_half_even_of_int)

lemma pow2_grid:
  assumes "p \<le> k"
  shows "(2::rat) powi k = of_int (2 ^ nat (k - p)) * 2 powi p"
proof -
  have "(2::rat) powi k = 2 powi (k - p) * 2 powi p"
    by (simp flip: power_int_add)
  then show ?thesis using assms by (simp add: power_int_nonneg_exp)
qed

lemma quantize_pow2: "p \<le> k \<Longrightarrow> quantize p (2 powi k) = 2 powi k"
  using quantize_grid [of p "2 ^ nat (k - p)"] pow2_grid [of p k] by simp

lemma quantize_nonneg: "0 \<le> x \<Longrightarrow> 0 \<le> quantize p x"
  using quantize_mono [of 0 x p] by (simp add: quantize_def round_half_even_def)

lemma quantize_error: "\<bar>quantize p q - q\<bar> \<le> 2 powi p / 2"
proof -
  define m where "m = q / 2 powi p"
  have q: "q = m * 2 powi p" using pow2_pos [of p] by (simp add: m_def)
  have "\<bar>of_int (round_half_even m) - m\<bar> \<le> 1 / 2"
    using round_half_even_range [of m] by linarith
  then have "\<bar>of_int (round_half_even m) - m\<bar> * 2 powi p \<le> 1 / 2 * 2 powi p"
    using pow2_pos [of p] by (intro mult_right_mono) simp_all
  moreover have "\<bar>quantize p q - q\<bar> = \<bar>of_int (round_half_even m) - m\<bar> * 2 powi p"
  proof -
    have "quantize p q - q = (of_int (round_half_even m) - m) * 2 powi p"
      by (subst (2) q) (simp add: quantize_def m_def algebra_simps)
    then show ?thesis using pow2_pos [of p] by (simp add: abs_mult)
  qed
  ultimately show ?thesis by simp
qed

lemma rn_0: "rn 0 = 0"
  by (simp add: rn_def)

lemma rn_nonneg: "0 \<le> rn q"
  by (simp add: rn_def quantize_nonneg)

lemma rn_eval:
  assumes "2 powi e \<le> q" "q < 2 powi (e + 1)"
  shows "rn q = quantize (max (e - 52) (- 1074)) q"
proof -
  have "0 < q" using assms(1) pow2_pos [of e] by linarith
  then show ?thesis using flog2_unique [OF assms] by (simp add: rn_def)
qed

lemma rn_computed:
  assumes "2 powi e \<le> q" "q < 2 powi (e + 1)"
    and "p = max (e - 52) (- 1074)"
    and "\<bar>q / 2 powi p - of_int m\<bar> < 1 / 2"
  shows "rn q = of_int m * 2 powi p"
  using rn_eval [OF assms(1,2)] assms(3) round_half_even_nearest [OF assms(4)]
  by (simp add: quantize_def)

lemma rn_mono:
  assumes "q \<le> r"
  shows "rn q \<le> rn r"
proof (cases "0 < q")
  case False
  then show ?thesis using rn_nonneg [of r] by (simp add: rn_def)
next
  case True
  then have r: "0 < r" using assms by linarith
  define pq where "pq = max (flog2 q - 52) (- 1074)"
  define pr where "pr = max (flog2 r - 52) (- 1074)"
  have rq: "rn q = quantize pq q" using True by (simp add: rn_def pq_def)
  have rr: "rn r = quantize pr r" using r by (simp add: rn_def pr_def)
  have le: "pq \<le> pr" using flog2_mono [OF True assms] by (simp add: pq_def pr_def)
  show ?thesis
  proof (cases "pq = pr")
    case True
    then show ?thesis using quantize_mono [OF assms, of pr] by (simp add: rq rr)
  next
    case False
    with le have lt: "pq < pr" by simp
    then have pr': "pr = flog2 r - 52" and e: "flog2 q < flog2 r"
      by (auto simp: pq_def pr_def)
    have "q \<le> 2 powi (flog2 q + 1)" using flog2_bounds [OF True] by simp
    also have "\<dots> \<le> 2 powi flog2 r" using e by (intro pow2_mono) simp
    finally have "quantize pq q \<le> quantize pq (2 powi flog2 r)" by (rule quantize_mono)
    also have "\<dots> = 2 powi flog2 r" using lt pr' by (intro quantize_pow2) simp
    also have "\<dots> = quantize pr (2 powi flog2 r)" using pr' by (intro quantize_pow2 [symmetric]) simp
    also have "\<dots> \<le> quantize pr r" using flog2_bounds [OF r] by (intro quantize_mono) simp
    finally show ?thesis by (simp add: rq rr)
  qed
qed

lemma rn_representable:
  assumes "0 < n" "n < 2 ^ 53" "- 1074 \<le> k"
  shows "rn (of_int n * 2 powi k) = of_int n * 2 powi k"
proof -
  define q :: rat where "q = of_int n * 2 powi k"
  have q: "0 < q" using assms(1) pow2_pos [of k] by (simp add: q_def)
  have "q < 2 powi (53 + k)"
  proof -
    have "(of_int n :: rat) < of_int (2 ^ 53)" using assms(2) by (simp only: of_int_less_iff)
    then have "q < 2 ^ 53 * 2 powi k" using pow2_pos [of k] by (simp add: q_def)
    then show ?thesis by (simp add: power_int_add)
  qed
  with flog2_bounds [OF q] have "2 powi flog2 q < (2::rat) powi (53 + k)" by linarith
  then have "flog2 q < 53 + k" using pow2_mono [of "53 + k" "flog2 q"] by (cases "flog2 q < 53 + k") auto
  then have p: "max (flog2 q - 52) (- 1074) \<le> k" using assms(3) by simp
  define p where "p = max (flog2 q - 52) (- 1074)"
  have "q = of_int (n * 2 ^ nat (k - p)) * 2 powi p"
    using pow2_grid [of p k] p by (simp add: q_def p_def)
  then have "quantize p q = q" using quantize_grid [of p "n * 2 ^ nat (k - p)"] by simp
  then show ?thesis using q by (simp add: rn_def p_def q_def)
qed

lemma rn_of_nat: "n < 2 ^ 53 \<Longrightarrow> rn (of_nat n) = of_nat n"
  using rn_representable [of "int n" 0] by (cases "n = 0") (simp_all add: rn_def)

lemma rn_1: "rn 1 = 1"
  using rn_of_nat [of 1] by simp

lemma rn_360: "rn 360 = 360"
  using rn_of_nat [of 360] by simp

lemma rn_error:
  assumes "0 \<le> q" "q < 2 powi k" "- 1021 \<le> k"
  shows "\<bar>rn q - q\<bar> \<le> 2 powi (k - 54)"
proof (cases "q = 0")
  case True
  then show ?thesis using pow2_pos [of "k - 54"] by (simp add: rn_0 less_imp_le)
next
  case False
  with assms(1) have q: "0 < q" by simp
  define p where "p = max (flog2 q - 52) (- 1074)"
  have "2 powi flog2 q < (2::rat) powi k" using flog2_bounds [OF q] assms(2) by linarith
  then have "flog2 q < k" by (rule pow2_less_cancel)
  then have p: "p \<le> k - 53" using assms(3) by (simp add: p_def)
  have "\<bar>rn q - q\<bar> \<le> 2 powi p / 2" using q quantize_error [of p q] by (simp add: rn_def p_def)
  also have "\<dots> = 2 powi (p - 1)" by (simp add: power_int_diff)
  also have "\<dots> \<le> 2 powi (k - 54)" using p by (intro pow2_mono) simp
  finally show ?thesis .
qed

text \<open>
  A rounded number is a binary64 value: rounding it again changes nothing.
\<close>

lemma round_half_even_nonneg: "0 \<le> x \<Longrightarrow> 0 \<le> round_half_even x"
  using round_half_even_floor_le [of x] by (simp add: order_trans [of 0 "\<lfloor>x\<rfloor>"])

lemma rn_idem: "rn (rn q) = rn q"
proof (cases "0 < q")
  case False
  then show ?thesis by (simp add: rn_def)
next
  case True
  define p where "p = max (flog2 q - 52) (- 1074)"
  define m where "m = round_half_even (q / 2 powi p)"
  have r: "rn q = of_int m * 2 powi p" using True by (simp add: rn_def quantize_def p_def m_def)
  have p: "- 1074 \<le> p" "flog2 q + 1 \<le> p + 53" by (simp_all add: p_def)
  have m0: "0 \<le> m"
    unfolding m_def using True pow2_pos [of p] by (intro round_half_even_nonneg) simp
  have "q \<le> 2 powi (flog2 q + 1)" using flog2_bounds [OF True] by simp
  also have "\<dots> \<le> 2 powi (p + 53)" using p(2) by (rule pow2_mono)
  finally have "q / 2 powi p \<le> 2 powi (p + 53) / 2 powi p"
    using pow2_pos [of p] by (intro divide_right_mono) simp_all
  also have "\<dots> = of_int (2 ^ 53)" by (simp add: power_int_add)
  finally have "m \<le> round_half_even (of_int (2 ^ 53))"
    unfolding m_def by (rule round_half_even_mono)
  then have m53: "m \<le> 2 ^ 53" by (simp only: round_half_even_of_int)
  consider "m = 0" | "0 < m" "m < 2 ^ 53" | "m = 2 ^ 53" using m0 m53 by linarith
  then show ?thesis
  proof cases
    case 1
    then show ?thesis by (simp add: r rn_0)
  next
    case 2
    then show ?thesis using rn_representable [of m p] p(1) by (simp add: r)
  next
    case 3
    have "rn q = of_int 1 * 2 powi (p + 53)" by (simp add: r 3 power_int_add)
    moreover have "rn (of_int 1 * 2 powi (p + 53)) = of_int 1 * 2 powi (p + 53)"
      using p(1) by (intro rn_representable) simp_all
    ultimately show ?thesis by simp
  qed
qed

text \<open>
  The operators and \<open>Math.round\<close> give valid numbers, and the number of an
  integer below \<open>2 ^ 53\<close> is valid.
\<close>

lemma is_double_0: "is_double 0"
  by (simp add: is_double_def rn_0)

lemma is_double_int:
  assumes "0 \<le> n" "n \<le> 2 ^ 53"
  shows "is_double (of_int n)"
proof -
  have small: "(of_int n :: rat) < 2 ^ 1024"
  proof -
    have "n < 2 ^ 1024" using assms(2) by simp
    then have "(of_int n :: rat) < of_int (2 ^ 1024)" by (simp only: of_int_less_iff)
    then show ?thesis by simp
  qed
  consider "n = 0" | "0 < n" "n < 2 ^ 53" | "n = 2 ^ 53" using assms by linarith
  then have "rn (of_int n) = of_int n"
  proof cases
    case 1
    then show ?thesis by (simp add: rn_0)
  next
    case 2
    then show ?thesis using rn_representable [of n 0] by simp
  next
    case 3
    then show ?thesis using rn_representable [of 1 53] by simp
  qed
  with assms(1) small show ?thesis by (simp add: is_double_def)
qed

lemma valid_cases: "valid NaN" "valid (Infty s)" "valid (Fin s a) \<longleftrightarrow> is_double a"
  by (simp_all add: valid_def)

lemma valid_bin64: "valid (bin64 s q)"
  by (simp add: valid_def bin64_def Let_def is_double_def rn_nonneg rn_idem not_le)

lemma valid_js_div: "valid (js_div x y)"
  by (cases x; cases y) (simp_all add: valid_bin64 is_double_0 valid_cases)

lemma valid_js_mul: "valid (js_mul x y)"
  by (cases x; cases y) (simp_all add: valid_bin64 valid_cases)

lemma valid_Num: "n < 2 ^ 53 \<Longrightarrow> valid (Num n)"
  using is_double_int [of "int n"] by (simp add: valid_cases Num_def)

lemma flog2_pow2: "flog2 (2 ^ 52) = 52"
  by (rule flog2_unique) simp_all

lemma is_double_large_int:
  assumes "is_double a" "2 ^ 52 \<le> a"
  shows "of_int \<lfloor>a\<rfloor> = a"
proof -
  have a: "0 < a" using assms(2) by (simp add: less_le_trans [of 0 "2 ^ 52"])
  define p where "p = max (flog2 a - 52) (- 1074)"
  have "flog2 (2 ^ 52) \<le> flog2 a" using assms(2) by (intro flog2_mono) simp_all
  then have "52 \<le> flog2 a" by (simp only: flog2_pow2)
  then have p: "0 \<le> p" by (simp add: p_def)
  have "a = rn a" using assms(1) by (simp add: is_double_def)
  also have "\<dots> = of_int (round_half_even (a / 2 powi p)) * 2 powi p"
    using a by (simp add: rn_def quantize_def p_def)
  also have "\<dots> = of_int (round_half_even (a / 2 powi p) * 2 ^ nat p)"
    using p by (simp add: power_int_nonneg_exp)
  finally obtain n where "a = of_int n" ..
  then show ?thesis by simp
qed

lemma valid_Math_round:
  assumes "valid x"
  shows "valid (Math_round x)"
proof (cases x)
  case (Fin s a)
  with assms have d: "is_double a" by (simp add: valid_cases)
  then have a0: "0 \<le> a" by (simp add: is_double_def)
  define v where "v = (if s then - a else a)"
  define r where "r = \<lfloor>v + 1 / 2\<rfloor>"
  have "is_double (of_int \<bar>r\<bar>)"
  proof (cases "2 ^ 52 \<le> a")
    case True
    from is_double_large_int [OF d True] have fl: "of_int \<lfloor>a\<rfloor> = a" .
    have "v = of_int (if s then - \<lfloor>a\<rfloor> else \<lfloor>a\<rfloor>)"
      by (cases s) (simp_all only: v_def if_True if_False of_int_minus fl)
    then have "r = (if s then - \<lfloor>a\<rfloor> else \<lfloor>a\<rfloor>)" unfolding r_def by linarith
    then have "\<bar>r\<bar> = \<lfloor>a\<rfloor>" using a0 by simp
    then have "(of_int \<bar>r\<bar> :: rat) = a" by (simp only: fl)
    then show ?thesis using d by (simp only:)
  next
    case False
    then have v: "- (2 ^ 52) < v" "v < 2 ^ 52" using a0 by (simp_all add: v_def)
    have "- (2 ^ 52) \<le> r" unfolding r_def using v(1) by (simp add: le_floor_iff)
    moreover have "r \<le> 2 ^ 52" unfolding r_def using v(2) by (simp add: floor_le_iff)
    ultimately have "\<bar>r\<bar> \<le> 2 ^ 53" by simp
    then show ?thesis by (intro is_double_int) simp_all
  qed
  then show ?thesis using Fin by (simp add: valid_cases v_def r_def Let_def)
qed (simp_all add: valid_cases)

section \<open>The hue of a head\<close>

text \<open>
  For an index up to the count of heads the quotient is in the unit interval, so that
  neither operation overflows; the hue computed by the function is the hue of the
  specification, an integer from 0 to 360, and it is printed with its decimal digits.
\<close>

lemma rn_unit_interval:
  assumes "0 \<le> q" "q \<le> 1"
  shows "0 \<le> rn q \<and> rn q \<le> 1"
  using rn_mono [OF assms(2)] rn_nonneg [of q] by (simp add: rn_1)

lemma rn_scaled_360:
  assumes "0 \<le> x" "x \<le> 1"
  shows "0 \<le> rn (x * 360) \<and> rn (x * 360) \<le> 360"
proof -
  have "x * 360 \<le> 360" using assms by simp
  from rn_mono [OF this] rn_nonneg [of "x * 360"] show ?thesis by (simp add: rn_360)
qed

lemma bin64_small:
  assumes "rn q \<le> 360"
  shows "bin64 s q = Fin s (rn q)"
proof -
  have "(360::rat) < 2 ^ 1024" by simp
  with assms have "\<not> 2 ^ 1024 \<le> rn q" by linarith
  then show ?thesis by (simp add: bin64_def)
qed

lemma spec_hue_le_360:
  assumes "index \<le> headCount"
  shows "spec_hue index headCount \<le> 360"
proof -
  define q :: rat where "q = of_nat index / of_nat headCount"
  have q: "0 \<le> q" "q \<le> 1" using assms by (auto simp: q_def divide_le_eq_1)
  from rn_unit_interval [OF q] rn_scaled_360 [of "rn q"]
  have "rn (rn q * 360) + 1 / 2 < of_int 360 + 1" by simp
  then show ?thesis by (simp add: spec_hue_def q_def nat_le_iff)
qed

lemma spec_hue_0: "spec_hue 0 headCount = 0"
  by (simp add: spec_hue_def rn_0)

lemma head_hue:
  assumes "0 < headCount" "index \<le> headCount"
  shows "Math_round (js_mul (js_div (Num index) (Num headCount)) (Num 360))
           = Num (spec_hue index headCount)"
proof -
  define q :: rat where "q = of_nat index / of_nat headCount"
  have q: "0 \<le> q" "q \<le> 1" using assms by (simp_all add: q_def divide_le_eq_1)
  note x = rn_unit_interval [OF q]
  from x have x360: "rn q \<le> 360" by linarith
  note y = rn_scaled_360 [of "rn q"]
  have d: "js_div (Num index) (Num headCount) = Fin False (rn q)"
    using assms(1) bin64_small [OF x360, of False] by (simp add: Num_def q_def)
  have m: "js_mul (Fin False (rn q)) (Num 360) = Fin False (rn (rn q * 360))"
    using bin64_small [of "rn q * 360" False] x y by (simp add: Num_def)
  have "0 \<le> \<lfloor>rn (rn q * 360) + 1 / 2\<rfloor>" using x y by simp
  then show ?thesis
    unfolding d m by (simp add: Num_def spec_hue_def q_def Let_def)
qed

lemma digit_char_0: "digit_char 0 = CHR ''0''"
  by (simp add: digit_char_def)

lemma dec_not_Nil: "dec n \<noteq> []"
  by (subst dec.simps) simp

lemma Number_toString_Num:
  assumes "n < 2 ^ 53"
  shows "Number_toString (Num n) = dec n"
proof (cases "n = 0")
  case True
  then show ?thesis by (simp add: Number_toString_def Num_def dec.simps [of 0] digit_char_0)
next
  case False
  have "(of_nat n :: rat) < of_nat (2 ^ 53)" using assms by (simp only: of_nat_less_iff)
  then show ?thesis using False by (simp add: Number_toString_def Num_def)
qed

lemma attentionHeadColor_index:
  assumes "0 < headCount" "index \<le> headCount"
  shows "attentionHeadColor (Num index) (Num headCount) alpha =
           ''hsla('' @ dec (spec_hue index headCount) @ '', 70%, 50%,  '' @
             (case alpha of None \<Rightarrow> ''100%'' | Some a \<Rightarrow> a) @ '')''"
proof -
  have "spec_hue index headCount < 2 ^ 53"
    using spec_hue_le_360 [OF assms(2)] by simp
  then show ?thesis
    by (simp add: attentionHeadColor_def head_hue [OF assms] Number_toString_Num)
qed

text \<open>
  The hues follow the order of the indices and stay next to the points \<open>360 * i / n\<close>
  of the circle.
\<close>

lemma ratio_hue_mono:
  assumes "q \<le> q'"
  shows "nat \<lfloor>rn (rn q * 360) + 1 / 2\<rfloor> \<le> nat \<lfloor>rn (rn q' * 360) + 1 / 2\<rfloor>"
proof -
  have "rn q * 360 \<le> rn q' * 360" using rn_mono [OF assms] by simp
  then have "rn (rn q * 360) + 1 / 2 \<le> rn (rn q' * 360) + 1 / 2"
    using rn_mono by simp
  then show ?thesis by (intro nat_mono floor_mono)
qed

lemma spec_hue_mono:
  assumes "i \<le> j"
  shows "spec_hue i headCount \<le> spec_hue j headCount"
proof -
  have "(of_nat i :: rat) / of_nat headCount \<le> of_nat j / of_nat headCount"
    using assms by (intro divide_right_mono) simp_all
  then show ?thesis unfolding spec_hue_def by (rule ratio_hue_mono)
qed

lemma spec_hue_near:
  assumes "0 < headCount" "index \<le> headCount"
  shows "\<bar>of_nat (spec_hue index headCount) - 360 * of_nat index / of_nat headCount\<bar>
           \<le> (1 / 2 + 1 / 2 ^ 43 :: rat)"
proof -
  define q :: rat where "q = of_nat index / of_nat headCount"
  define x where "x = rn q"
  define y where "y = rn (x * 360)"
  define r where "r = \<lfloor>y + 1 / 2\<rfloor>"
  have q: "0 \<le> q" "q \<le> 1" using assms by (auto simp: q_def divide_le_eq_1)
  have x: "0 \<le> x" "x \<le> 1" using rn_unit_interval [OF q] by (simp_all add: x_def)
  have y: "0 \<le> y" using rn_nonneg [of "x * 360"] by (simp add: y_def)
  have ex: "\<bar>x - q\<bar> \<le> 2 powi (- 53)"
    using rn_error [of q 1] q by (simp add: x_def)
  have ey: "\<bar>y - x * 360\<bar> \<le> 2 powi (- 45)"
    using rn_error [of "x * 360" 9] x by (simp add: y_def)
  have p53: "(2::rat) powi (- 53) = 1 / 2 ^ 53" and p45: "(2::rat) powi (- 45) = 1 / 2 ^ 45"
    by (simp_all add: power_int_minus_divide)
  have "\<bar>y - 360 * q\<bar> = \<bar>(y - x * 360) + 360 * (x - q)\<bar>" by (simp add: algebra_simps)
  also have "\<dots> \<le> \<bar>y - x * 360\<bar> + \<bar>360 * (x - q)\<bar>" by (rule abs_triangle_ineq)
  also have "\<dots> = \<bar>y - x * 360\<bar> + 360 * \<bar>x - q\<bar>" by (simp only: abs_mult abs_numeral)
  also have "\<dots> \<le> 1 / 2 ^ 45 + 360 * (1 / 2 ^ 53)" using ex ey by (simp add: p53 p45)
  also have "\<dots> \<le> 1 / 2 ^ 43" by simp
  finally have yq: "\<bar>y - 360 * q\<bar> \<le> 1 / 2 ^ 43" .
  have "\<bar>of_int r - y\<bar> \<le> 1 / 2" unfolding r_def by linarith
  with yq have "\<bar>of_int r - 360 * q\<bar> \<le> 1 / 2 + 1 / 2 ^ 43" by linarith
  moreover have "0 \<le> r" using y by (simp add: r_def)
  then have "(of_nat (spec_hue index headCount) :: rat) = of_int r"
    by (simp add: spec_hue_def r_def y_def x_def q_def)
  ultimately show ?thesis by (simp add: q_def)
qed

text \<open>
  Some hues, computed: 7 of 80 heads is at hue 31 (the exact quotient, 31.5, would
  round to 32); the last of 719 heads is at 359, the last of 720 and the last of 1000
  at 360.
\<close>

lemma spec_hue_1_2: "spec_hue 1 2 = 180"
proof -
  have x: "rn (1 / 2) = 1 / 2"
    by (rule rn_computed [where e = "- 1" and p = "- 53" and m = 4503599627370496, THEN trans])
      (simp_all add: power_int_minus_divide)
  have y: "rn (1 / 2 * 360) = 180"
    by (rule rn_computed [where e = 7 and p = "- 45" and m = 6333186975989760, THEN trans])
      (simp_all add: power_int_minus_divide)
  have "\<lfloor>(180 + 1 / 2 :: rat)\<rfloor> = 180"
    by (rule floor_unique) simp_all
  then show ?thesis
    unfolding spec_hue_def by (simp only: of_nat_numeral of_nat_1 x y nat_numeral)
qed

lemma spec_hue_7_80: "spec_hue 7 80 = 31"
proof -
  have x: "rn (7 / 80) = 3152519739159347 / 36028797018963968"
    by (rule rn_computed [where e = "- 4" and p = "- 56" and m = 6305039478318694, THEN trans])
      (simp_all add: power_int_minus_divide)
  have y: "rn (3152519739159347 / 36028797018963968 * 360) = 8866461766385663 / 281474976710656"
    by (rule rn_computed [where e = 4 and p = "- 48" and m = 8866461766385663, THEN trans])
      (simp_all add: power_int_minus_divide)
  have "\<lfloor>(8866461766385663 / 281474976710656 + 1 / 2 :: rat)\<rfloor> = 31"
    by (rule floor_unique) simp_all
  then show ?thesis
    unfolding spec_hue_def by (simp only: of_nat_numeral of_nat_1 x y nat_numeral)
qed

lemma spec_hue_718_719: "spec_hue 718 719 = 359"
proof -
  have x: "rn (718 / 719) = 4497335928306003 / 4503599627370496"
    by (rule rn_computed [where e = "- 1" and p = "- 53" and m = 8994671856612006, THEN trans])
      (simp_all add: power_int_minus_divide)
  have y: "rn (4497335928306003 / 4503599627370496 * 360) = 6324378649180317 / 17592186044416"
    by (rule rn_computed [where e = 8 and p = "- 44" and m = 6324378649180317, THEN trans])
      (simp_all add: power_int_minus_divide)
  have "\<lfloor>(6324378649180317 / 17592186044416 + 1 / 2 :: rat)\<rfloor> = 359"
    by (rule floor_unique) simp_all
  then show ?thesis
    unfolding spec_hue_def by (simp only: of_nat_numeral x y nat_numeral)
qed

lemma spec_hue_719_720: "spec_hue 719 720 = 360"
proof -
  have x: "rn (719 / 720) = 4497344627888037 / 4503599627370496"
    by (rule rn_computed [where e = "- 1" and p = "- 53" and m = 8994689255776074, THEN trans])
      (simp_all add: power_int_minus_divide)
  have y: "rn (4497344627888037 / 4503599627370496 * 360) = 719 / 2"
    by (rule rn_computed [where e = 8 and p = "- 44" and m = 6324390882967552, THEN trans])
      (simp_all add: power_int_minus_divide)
  have "\<lfloor>(719 / 2 + 1 / 2 :: rat)\<rfloor> = 360"
    by (rule floor_unique) simp_all
  then show ?thesis
    unfolding spec_hue_def by (simp only: of_nat_numeral x y nat_numeral)
qed

lemma spec_hue_999_1000: "spec_hue 999 1000 = 360"
proof -
  have x: "rn (999 / 1000) = 8998192055486251 / 9007199254740992"
    by (rule rn_computed [where e = "- 1" and p = "- 53" and m = 8998192055486251, THEN trans])
      (simp_all add: power_int_minus_divide)
  have y: "rn (8998192055486251 / 9007199254740992 * 360) = 3163426894506885 / 8796093022208"
    by (rule rn_computed [where e = 8 and p = "- 44" and m = 6326853789013770, THEN trans])
      (simp_all add: power_int_minus_divide)
  have "\<lfloor>(3163426894506885 / 8796093022208 + 1 / 2 :: rat)\<rfloor> = 360"
    by (rule floor_unique) simp_all
  then show ?thesis
    unfolding spec_hue_def by (simp only: of_nat_numeral of_nat_1 x y nat_numeral)
qed

lemma last_hue_below_720:
  assumes "0 < headCount" "headCount < 720"
  shows "spec_hue (headCount - 1) headCount < 360"
proof -
  have "of_nat (headCount - 1) * (719::rat) \<le> 718 * of_nat headCount"
  proof -
    have "(headCount - 1) * 719 \<le> 718 * headCount" using assms by simp
    then have "(of_nat ((headCount - 1) * 719) :: rat) \<le> of_nat (718 * headCount)"
      by (simp only: of_nat_le_iff)
    then show ?thesis by simp
  qed
  then have "(of_nat (headCount - 1) :: rat) / of_nat headCount \<le> 718 / 719"
    using assms(1) by (simp add: field_simps)
  from ratio_hue_mono [OF this]
  have "spec_hue (headCount - 1) headCount \<le> spec_hue 718 719"
    by (simp add: spec_hue_def)
  then show ?thesis by (simp add: spec_hue_718_719)
qed

lemma last_hue_from_720:
  assumes "720 \<le> headCount"
  shows "spec_hue (headCount - 1) headCount = 360"
proof -
  have "719 * (of_nat headCount :: rat) \<le> of_nat (headCount - 1) * 720"
  proof -
    have "719 * headCount \<le> (headCount - 1) * 720" using assms by simp
    then have "(of_nat (719 * headCount) :: rat) \<le> of_nat ((headCount - 1) * 720)"
      by (simp only: of_nat_le_iff)
    then show ?thesis by simp
  qed
  then have "(719 / 720 :: rat) \<le> of_nat (headCount - 1) / of_nat headCount"
    using assms by (simp add: field_simps)
  from ratio_hue_mono [OF this]
  have "spec_hue 719 720 \<le> spec_hue (headCount - 1) headCount"
    by (simp add: spec_hue_def)
  moreover have "spec_hue (headCount - 1) headCount \<le> 360"
    by (rule spec_hue_le_360) simp
  ultimately show ?thesis by (simp add: spec_hue_719_720)
qed

lemma dec_0: "dec 0 = ''0''" and dec_1: "dec 1 = ''1''"
  by (simp_all add: dec.simps digit_char_def)

lemma dec_180: "dec 180 = ''180''" and dec_31: "dec 31 = ''31''" and dec_360: "dec 360 = ''360''"
  by (simp_all add: dec.simps digit_char_def)

text \<open>
  The text of a number is never empty.
\<close>

lemma positive_toString_not_Nil: "positive_toString a \<noteq> []"
  by (auto simp: positive_toString_def Let_def dec_not_Nil split: prod.splits)

lemma Number_toString_not_Nil: "Number_toString x \<noteq> []"
  by (cases x) (auto simp: Number_toString_def dec_not_Nil positive_toString_not_Nil)

text \<open>
  Claim C2. For every count of heads above zero, every index below it and every
  opacity (\<open>"100%"\<close> when left out), the colour is the text \<open>hsla(h, 70%, 50%,  alpha)\<close>
  with \<open>h\<close> the decimal digits of the hue \<open>round((index / headCount) * 360)\<close>; the
  colour of index 0 has hue 0. The colour is a function of the three arguments alone:
  the same arguments give the same text.
\<close>

theorem attentionHeadColor_hsla:
  assumes "0 < headCount" "index < headCount"
  shows "attentionHeadColor (Num index) (Num headCount) alpha =
           ''hsla('' @ dec (spec_hue index headCount) @ '', 70%, 50%,  '' @
             (case alpha of None \<Rightarrow> ''100%'' | Some a \<Rightarrow> a) @ '')'' \<and>
         attentionHeadColor (Num 0) (Num headCount) alpha =
           ''hsla(0, 70%, 50%,  '' @ (case alpha of None \<Rightarrow> ''100%'' | Some a \<Rightarrow> a) @ '')''"
  using attentionHeadColor_index [of headCount index alpha]
    attentionHeadColor_index [of headCount 0 alpha] assms
  by (simp add: spec_hue_0 dec.simps [of 0] digit_char_0)

theorem attentionHeadColor_hsla_witness:
  "attentionHeadColor (Num 1) (Num 2) None = ''hsla(180, 70%, 50%,  100%)'' \<and>
   attentionHeadColor (Num 7) (Num 80) (Some ''60%'') = ''hsla(31, 70%, 50%,  60%)'' \<and>
   attentionHeadColor (Num 0) (Num 2) None = ''hsla(0, 70%, 50%,  100%)''"
  using attentionHeadColor_hsla [of 2 1 None] attentionHeadColor_hsla [of 80 7 "Some ''60%''"]
  by (simp add: spec_hue_1_2 [unfolded One_nat_def] spec_hue_7_80 dec_180 dec_31)

text \<open>
  Claim C8, as amended. For every count of heads above zero the hues are spread
  evenly around the circle in the order of the indices: head 0 is at hue 0, the hues
  never decrease with the index, each hue is within \<open>1 / 2 + 1 / 2 ^ 43\<close> of the point
  \<open>360 * index / headCount\<close>, and no hue exceeds 360. The hue of the last head is
  strictly below 360 exactly when there are fewer than 720 heads.
\<close>

theorem hues_in_index_order:
  assumes "0 < headCount" "i \<le> j" "j < headCount"
  shows "attentionHeadColor (Num j) (Num headCount) None =
           ''hsla('' @ dec (spec_hue j headCount) @ '', 70%, 50%,  100%)'' \<and>
         spec_hue 0 headCount = 0 \<and>
         spec_hue i headCount \<le> spec_hue j headCount \<and>
         \<bar>of_nat (spec_hue j headCount) - 360 * of_nat j / of_nat headCount\<bar>
           \<le> (1 / 2 + 1 / 2 ^ 43 :: rat) \<and>
         spec_hue j headCount \<le> 360 \<and>
         (spec_hue (headCount - 1) headCount < 360 \<longleftrightarrow> headCount < 720)"
proof -
  have j: "j \<le> headCount" using assms(3) by simp
  have "spec_hue (headCount - 1) headCount < 360 \<longleftrightarrow> headCount < 720"
    using last_hue_below_720 [OF assms(1)] last_hue_from_720 [of headCount]
    by (cases "headCount < 720") auto
  then show ?thesis
    using attentionHeadColor_index [OF assms(1) j, of None] spec_hue_0 [of headCount]
      spec_hue_mono [OF assms(2), of headCount] spec_hue_near [OF assms(1) j]
      spec_hue_le_360 [OF j]
    by simp
qed

theorem hues_in_index_order_witness:
  "attentionHeadColor (Num 7) (Num 80) None = ''hsla(31, 70%, 50%,  100%)'' \<and>
   spec_hue 0 80 = 0 \<and>
   spec_hue 6 80 \<le> spec_hue 7 80 \<and>
   \<bar>of_nat (spec_hue 7 80) - 360 * 7 / 80\<bar> \<le> (1 / 2 + 1 / 2 ^ 43 :: rat) \<and>
   spec_hue 7 80 \<le> 360 \<and>
   spec_hue 79 80 < 360"
  using hues_in_index_order [of 80 6 7]
  by (simp add: spec_hue_7_80 dec_31)

text \<open>
  Claim C8 as it was stated fails: of 1000 heads the last, index 999, has hue 360.
\<close>

theorem last_hue_is_360:
  "attentionHeadColor (Num 999) (Num 1000) None = ''hsla(360, 70%, 50%,  100%)''"
  using attentionHeadColor_index [of 1000 999 None]
  by (simp add: spec_hue_999_1000 dec_360)

text \<open>
  Claim C10. The function has no check of its arguments and no failing branch: for
  all numbers it returns the text \<open>hsla(\<close>, the text of the hue, which is never empty,
  and \<open>, 70%, 50%,  alpha)\<close>. With zero heads the hue is \<open>NaN\<close> for index 0 and
  \<open>Infinity\<close> for an index above 0, and the text holds it as it is.
\<close>

theorem attentionHeadColor_total:
  "(\<exists>hue_text. hue_text \<noteq> [] \<and>
      attentionHeadColor idx numberOfHeads alpha =
        ''hsla('' @ hue_text @ '', 70%, 50%,  '' @
          (case alpha of None \<Rightarrow> ''100%'' | Some a \<Rightarrow> a) @ '')'') \<and>
   attentionHeadColor (Num 0) (Num 0) alpha =
     ''hsla(NaN, 70%, 50%,  '' @ (case alpha of None \<Rightarrow> ''100%'' | Some a \<Rightarrow> a) @ '')'' \<and>
   (0 < x \<longrightarrow>
      attentionHeadColor (Fin False x) (Num 0) alpha =
        ''hsla(Infinity, 70%, 50%,  '' @ (case alpha of None \<Rightarrow> ''100%'' | Some a \<Rightarrow> a) @ '')'')"
proof -
  have "attentionHeadColor idx numberOfHeads alpha =
          ''hsla('' @ Number_toString (Math_round (js_mul (js_div idx numberOfHeads) (Num 360))) @
            '', 70%, 50%,  '' @ (case alpha of None \<Rightarrow> ''100%'' | Some a \<Rightarrow> a) @ '')''"
    by (simp add: attentionHeadColor_def)
  then have A: "\<exists>hue_text. hue_text \<noteq> [] \<and>
      attentionHeadColor idx numberOfHeads alpha =
        ''hsla('' @ hue_text @ '', 70%, 50%,  '' @
          (case alpha of None \<Rightarrow> ''100%'' | Some a \<Rightarrow> a) @ '')''"
    using Number_toString_not_Nil by blast
  have B: "attentionHeadColor (Num 0) (Num 0) alpha =
     ''hsla(NaN, 70%, 50%,  '' @ (case alpha of None \<Rightarrow> ''100%'' | Some a \<Rightarrow> a) @ '')''"
    by (simp add: attentionHeadColor_def Num_def Number_toString_def)
  have C: "0 < x \<longrightarrow>
      attentionHeadColor (Fin False x) (Num 0) alpha =
        ''hsla(Infinity, 70%, 50%,  '' @ (case alpha of None \<Rightarrow> ''100%'' | Some a \<Rightarrow> a) @ '')''"
    by (simp add: attentionHeadColor_def Num_def Number_toString_def)
  from A B C show ?thesis by blast
qed

theorem attentionHeadColor_total_witness:
  "attentionHeadColor (Num 3) (Num 0) (Some ''60%'') = ''hsla(Infinity, 70%, 50%,  60%)'' \<and>
   attentionHeadColor (Fin False (1 / 2)) (Num 0) None = ''hsla(Infinity, 70%, 50%,  100%)'' \<and>
   attentionHeadColor (Num 0) (Num 0) None = ''hsla(NaN, 70%, 50%,  100%)''"
  using attentionHeadColor_total [of "Num 3" "Num 0" "Some ''60%''" 3]
    attentionHeadColor_total [of "Num 0" "Num 0" None "1 / 2"]
  by (simp add: Num_def)

section \<open>The hover and lock state: clicks and the pointer\<close>

text \<open>
  Claim C3. A click on an index, in a state that is unlocked or locked on another
  index, gives the focus on that index and the lock set: one click always leaves a
  definite locked selection when the index was not the locked one. A click on the index
  the state is locked on clears the lock, and the focus falls back to the index under
  the pointer, if any, else to the default index (no focus when none is configured).
\<close>

theorem onClick_toggles_lock:
  "(\<not> (lock st \<and> focus st = Some index) \<longrightarrow>
      focus (onClick index st) = Some index \<and> lock (onClick index st)) \<and>
   (lock st \<and> focus st = Some index \<longrightarrow>
      \<not> lock (onClick index st) \<and>
      focus (onClick index st) = (case hover st of Some h \<Rightarrow> Some h | None \<Rightarrow> default_index st))"
  by (simp add: onClick_def)

theorem onClick_toggles_lock_witness:
  "focus (onClick 1 (useHoverLock (Some 0))) = Some 1 \<and>
   lock (onClick 1 (useHoverLock (Some 0))) \<and>
   focus (onClick 2 (onClick 1 (useHoverLock (Some 0)))) = Some 2 \<and>
   lock (onClick 2 (onClick 1 (useHoverLock (Some 0)))) \<and>
   \<not> lock (onClick 1 (onClick 1 (useHoverLock (Some 0)))) \<and>
   focus (onClick 1 (onClick 1 (useHoverLock (Some 0)))) = Some 0 \<and>
   focus (onClick 1 (onClick 1 (onMouseEnter 1 (useHoverLock (Some 0))))) = Some 1"
  using onClick_toggles_lock [of "useHoverLock (Some 0)" 1]
    onClick_toggles_lock [of "onClick 1 (useHoverLock (Some 0))" 2]
    onClick_toggles_lock [of "onClick 1 (useHoverLock (Some 0))" 1]
    onClick_toggles_lock [of "onClick 1 (onMouseEnter 1 (useHoverLock (Some 0)))" 1]
  by (simp add: useHoverLock_def onClick_def onMouseEnter_def)

lemma pointer_lock: "lock (pointer e st) = lock st"
  by (cases e) (simp_all add: onMouseEnter_def onMouseLeave_def)

lemma pointer_events_lock: "lock (pointer_events evs st) = lock st"
  unfolding pointer_events_def
  by (induction evs arbitrary: st) (simp_all add: pointer_lock)

text \<open>
  Claim C4. While the state is locked, a pointer entering an index or leaving leaves
  the focus as it is. While it is unlocked, entering an index sets the focus to it and
  leaving clears the focus back to the default index (no focus when none is
  configured). No sequence of pointer events changes the lock flag.
\<close>

theorem hover_respects_lock:
  "(lock st \<longrightarrow>
      focus (onMouseEnter index st) = focus st \<and> focus (onMouseLeave st) = focus st) \<and>
   (\<not> lock st \<longrightarrow>
      focus (onMouseEnter index st) = Some index \<and>
      focus (onMouseLeave st) = default_index st) \<and>
   lock (pointer_events evs st) = lock st"
  by (simp add: onMouseEnter_def onMouseLeave_def pointer_events_lock)

theorem hover_respects_lock_witness:
  "focus (onMouseEnter 2 (onClick 1 (useHoverLock None))) = Some 1 \<and>
   focus (onMouseLeave (onClick 1 (useHoverLock None))) = Some 1 \<and>
   focus (onMouseEnter 2 (useHoverLock None)) = Some 2 \<and>
   focus (onMouseLeave (onMouseEnter 2 (useHoverLock None))) = None \<and>
   focus (onMouseLeave (onMouseEnter 2 (useHoverLock (Some 0)))) = Some 0 \<and>
   lock (pointer_events [MouseEnter 2, MouseLeave, MouseEnter 3] (onClick 1 (useHoverLock None))) \<and>
   \<not> lock (pointer_events [MouseEnter 2, MouseLeave, MouseEnter 3] (useHoverLock None))"
  using hover_respects_lock [of "onClick 1 (useHoverLock None)" 2 "[MouseEnter 2, MouseLeave, MouseEnter 3]"]
    hover_respects_lock [of "useHoverLock None" 2 "[MouseEnter 2, MouseLeave, MouseEnter 3]"]
    hover_respects_lock [of "onMouseEnter 2 (useHoverLock None)" 2 "[]"]
    hover_respects_lock [of "onMouseEnter 2 (useHoverLock (Some 0))" 2 "[]"]
  by (simp add: useHoverLock_def onClick_def onMouseEnter_def)

section \<open>The state of the component\<close>

text \<open>
  Claim C5. Choosing a view of the tokens in the \<open>select\<close> element leaves the hook of
  the heads and the hook of the tokens as they are: the focused or locked head and the
  focused or locked token are the same before and after; only the view changes.
\<close>

theorem tokensView_change_keeps_hooks:
  "heads_hook (handle (SelectChange v) st) = heads_hook st \<and>
   tokens_hook (handle (SelectChange v) st) = tokens_hook st \<and>
   tokensView (handle (SelectChange v) st) = v"
  by simp

text \<open>
  Claim C9. On first render the hook of the heads has its focus on index 0 and is
  unlocked, the view of the tokens is \<open>DESTINATION_TO_SOURCE\<close>, and the hook of the
  tokens has no default, no focus and is unlocked.
\<close>

theorem first_render_defaults:
  "focus (heads_hook first_render) = Some 0 \<and>
   \<not> lock (heads_hook first_render) \<and>
   tokensView first_render = DESTINATION_TO_SOURCE \<and>
   default_index (tokens_hook first_render) = None \<and>
   focus (tokens_hook first_render) = None \<and>
   \<not> lock (tokens_hook first_render)"
  by (simp add: first_render_def useHoverLock_def)

section \<open>The colours of the tokens are guarded\<close>

text \<open>
  Claim C1. For a tensor of the data model, with \<open>h\<close> heads of \<open>d\<close> destination
  positions of \<open>s\<close> source positions each, or a tensor that is absent: the derivation
  gives \<open>null\<close> exactly when the display of tokens is off, the tensor is absent, or one
  of \<open>h\<close>, \<open>d\<close>, \<open>s\<close> is zero, and then the reduction is not called at all; for
  every other input it gives the result of the reduction, called once, on that tensor.
\<close>

theorem coloredAttention_null_iff:
  assumes "case att_arg of None \<Rightarrow> True | Some att \<Rightarrow> has_shape att h d s"
  shows "coloredAttention colorAttentionTensors showTks att_arg =
           (case att_arg of
              None \<Rightarrow> (None, [])
            | Some att \<Rightarrow>
                if showTks \<and> 0 < h \<and> 0 < d \<and> 0 < s
                then (Some (colorAttentionTensors att), [att])
                else (None, []))"
proof (cases att_arg)
  case None
  then show ?thesis by (simp add: coloredAttention_def)
next
  case (Some att)
  with assms have sh: "has_shape att h d s" by simp
  show ?thesis
  proof (cases att)
    case Nil
    with sh Some show ?thesis by (simp add: coloredAttention_def has_shape_def)
  next
    case (Cons m ms)
    note att = this
    show ?thesis
    proof (cases m)
      case Nil
      with sh Some att show ?thesis by (auto simp: coloredAttention_def has_shape_def)
    next
      case (Cons r rs)
      with sh Some att show ?thesis by (auto simp: coloredAttention_def has_shape_def)
    qed
  qed
qed

theorem coloredAttention_null_iff_witness:
  "coloredAttention length True (Some [[[1, 2], [3, 4::int]]]) = (Some 1, [[[[1, 2], [3, 4]]]]) \<and>
   coloredAttention length False (Some [[[1, 2], [3, 4::int]]]) = (None, []) \<and>
   coloredAttention length True (Some ([] :: int list list list)) = (None, []) \<and>
   coloredAttention length True (Some [[], [] :: int list list]) = (None, []) \<and>
   coloredAttention length True (Some [[[], []], [[], [] :: int list]]) = (None, []) \<and>
   coloredAttention length True (None :: int list list list option) = (None, [])"
  using coloredAttention_null_iff [where att_arg = "Some [[[1, 2], [3, 4::int]]]"
      and h = 1 and d = 2 and s = 2 and colorAttentionTensors = length and showTks = True]
    coloredAttention_null_iff [where att_arg = "Some [[[1, 2], [3, 4::int]]]"
      and h = 1 and d = 2 and s = 2 and colorAttentionTensors = length and showTks = False]
    coloredAttention_null_iff [where att_arg = "Some ([] :: int list list list)"
      and h = 0 and d = 0 and s = 0 and colorAttentionTensors = length and showTks = True]
    coloredAttention_null_iff [where att_arg = "Some [[], [] :: int list list]"
      and h = 2 and d = 0 and s = 0 and colorAttentionTensors = length and showTks = True]
    coloredAttention_null_iff [where att_arg = "Some [[[], []], [[], [] :: int list]]"
      and h = 2 and d = 2 and s = 0 and colorAttentionTensors = length and showTks = True]
    coloredAttention_null_iff [where att_arg = "None :: int list list list option"
      and h = 0 and d = 0 and s = 0 and colorAttentionTensors = length and showTks = True]
  by (simp add: has_shape_def)

section \<open>What is rendered\<close>

lemma selector_length:
  "length (AttentionHeadsSelector props names focused) = length (attention props)"
  by (simp add: AttentionHeadsSelector_def)

lemma selector_nth:
  assumes "i < length (attention props)"
  shows "AttentionHeadsSelector props names focused ! i =
     \<lparr>cell_key = i,
      cell_borderColor = attentionHeadColor (Num i) (Num (length (attention props))) None,
      cell_boxShadow =
        (if focused = Some i
         then Some (''0px 0px 4px 3px '' @
                attentionHeadColor (Num i) (Num (length (attention props))) (Some ''60%''))
         else None),
      cell_label_background = attentionHeadColor (Num i) (Num (length (attention props))) None,
      cell_label = at_index names (Some i),
      cell_pattern =
        \<lparr>ap_attention = Some (attention props ! i),
         ap_tokens = tokens props,
         ap_showAxisLabels = Some False,
         ap_maxValue = maxValue props,
         ap_minValue = minValue props,
         ap_negativeColor = negativeColor props,
         ap_positiveColor = positiveColor props,
         ap_zoomed = None,
         ap_maskUpperTri = maskUpperTri props\<rparr>\<rparr>"
  using assms by (simp add: AttentionHeadsSelector_def Let_def)

lemma selector_labels:
  "map cell_label (AttentionHeadsSelector props names focused) =
     map (\<lambda>idx. at_index names (Some idx)) [0 ..< length (attention props)]"
  by (rule nth_equalityI) (simp_all add: selector_length selector_nth)

lemma headNames_at:
  assumes "length (attention props) \<le> 2 ^ 53"
  shows "at_index (headNames props) (Some idx) =
     (case attentionHeadNames props of
        Some names \<Rightarrow> if idx < length names then Some (names ! idx) else None
      | None \<Rightarrow> if idx < length (attention props) then Some (''Head '' @ dec idx) else None)"
proof (cases "attentionHeadNames props")
  case None
  have "idx < length (attention props) \<Longrightarrow> Number_toString (Num idx) = dec idx"
    using assms by (intro Number_toString_Num) simp
  with None show ?thesis by (simp add: headNames_def at_index_def)
next
  case (Some names)
  then show ?thesis by (simp add: headNames_def at_index_def)
qed

lemma head_1_of_2:
  "attentionHeadColor (Num (Suc 0)) (Num (Suc (Suc 0))) None = ''hsla(180, 70%, 50%,  100%)''"
proof -
  have "attentionHeadColor (Num 1) (Num 2) None = ''hsla(180, 70%, 50%,  100%)''"
    using attentionHeadColor_index [of 2 1 None]
    by (simp add: spec_hue_1_2 [unfolded One_nat_def] dec_180)
  then show ?thesis by (simp add: numeral_2_eq_2)
qed

text \<open>
  Claim C7, as amended. An array of JavaScript has fewer than \<open>2 ^ 32\<close> elements.
  When \<open>attentionHeadNames\<close> is supplied, head \<open>i\<close> is labelled with its element \<open>i\<close>,
  and a head at or beyond its length has no label; when it is absent, every head \<open>i\<close>
  is labelled \<open>Head i\<close>.
\<close>

theorem head_labels:
  assumes "length (attention props) \<le> 2 ^ 53"
  shows "map cell_label (view_selector (AttentionHeads colorAttentionTensors props st)) =
           map (\<lambda>idx. case attentionHeadNames props of
                         Some names \<Rightarrow> if idx < length names then Some (names ! idx) else None
                       | None \<Rightarrow> Some (''Head '' @ dec idx))
             [0 ..< length (attention props)]"
proof -
  have "map cell_label (view_selector (AttentionHeads colorAttentionTensors props st)) =
          map (\<lambda>idx. at_index (headNames props) (Some idx)) [0 ..< length (attention props)]"
    by (simp add: AttentionHeads_def Let_def selector_labels)
  also have "\<dots> = map (\<lambda>idx. case attentionHeadNames props of
                         Some names \<Rightarrow> if idx < length names then Some (names ! idx) else None
                       | None \<Rightarrow> Some (''Head '' @ dec idx))
             [0 ..< length (attention props)]"
    by (rule map_cong [OF refl]) (simp add: headNames_at [OF assms] split: option.splits)
  finally show ?thesis .
qed

theorem head_labels_witness:
  "map cell_label
     (view_selector
        (AttentionHeads (\<lambda>t. ())
           \<lparr>attention = [[[1, 0], [0, 1]], [[0, 1], [1, 0 :: int]]],
            attentionHeadNames = None, maxValue = None, minValue = None,
            negativeColor = None, positiveColor = None, maskUpperTri = None,
            showAxisLabels = None, showTokens = None, tokens = [''a'', ''b'']\<rparr>
           first_render))
     = [Some ''Head 0'', Some ''Head 1''] \<and>
   map cell_label
     (view_selector
        (AttentionHeads (\<lambda>t. ())
           \<lparr>attention = [[[1, 0], [0, 1]], [[0, 1], [1, 0 :: int]]],
            attentionHeadNames = Some [''L0'', ''L1'', ''L2''], maxValue = None, minValue = None,
            negativeColor = None, positiveColor = None, maskUpperTri = None,
            showAxisLabels = None, showTokens = None, tokens = [''a'', ''b'']\<rparr>
           first_render))
     = [Some ''L0'', Some ''L1'']"
  using head_labels [where colorAttentionTensors = "\<lambda>t. ()" and st = first_render
      and props = "\<lparr>attention = [[[1, 0], [0, 1]], [[0, 1], [1, 0 :: int]]],
            attentionHeadNames = None, maxValue = None, minValue = None,
            negativeColor = None, positiveColor = None, maskUpperTri = None,
            showAxisLabels = None, showTokens = None, tokens = [''a'', ''b'']\<rparr>"]
    head_labels [where colorAttentionTensors = "\<lambda>t. ()" and st = first_render
      and props = "\<lparr>attention = [[[1, 0], [0, 1]], [[0, 1], [1, 0 :: int]]],
            attentionHeadNames = Some [''L0'', ''L1'', ''L2''], maxValue = None, minValue = None,
            negativeColor = None, positiveColor = None, maskUpperTri = None,
            showAxisLabels = None, showTokens = None, tokens = [''a'', ''b'']\<rparr>"]
  by (simp add: upt_rec dec_0 dec_1 [unfolded One_nat_def])

text \<open>
  Claim C7 as it was stated fails: of two heads with the one name \<open>L0H0\<close> supplied,
  head 1 has no label, where the claim has \<open>Head 1\<close>.
\<close>

theorem short_names_leave_heads_unnamed:
  "map cell_label
     (view_selector
        (AttentionHeads (\<lambda>t. ())
           \<lparr>attention = [[[1, 0], [0, 1]], [[0, 1], [1, 0 :: int]]],
            attentionHeadNames = Some [''L0H0''], maxValue = None, minValue = None,
            negativeColor = None, positiveColor = None, maskUpperTri = None,
            showAxisLabels = None, showTokens = None, tokens = [''a'', ''b'']\<rparr>
           first_render))
     = [Some ''L0H0'', None]"
  by (simp add: AttentionHeads_def Let_def selector_labels headNames_def at_index_def upt_rec)

text \<open>
  Claim C6. With the focus on head \<open>f\<close>, the zoomed view shows the matrix
  \<open>attention[f]\<close>, with the bounds, the two colours and the mask flag that every cell of
  the selector is given, and its label has the background
  \<open>attentionHeadColor(f, attention.length)\<close>, the colour of the border and of the label
  of cell \<open>f\<close> of the selector, which shows the same matrix under the same name. On
  first render \<open>f\<close> is 0.
\<close>

theorem zoomed_view_follows_focus:
  assumes "focus (heads_hook st) = Some f"
  shows "ap_attention (zoom_pattern (view_zoomed (AttentionHeads colorAttentionTensors props st)))
           = (if f < length (attention props) then Some (attention props ! f) else None) \<and>
         zoom_label_background (view_zoomed (AttentionHeads colorAttentionTensors props st))
           = attentionHeadColor (Num f) (Num (length (attention props))) None \<and>
         (\<forall>c \<in> set (view_selector (AttentionHeads colorAttentionTensors props st)).
            ap_maxValue (cell_pattern c) = maxValue props \<and>
            ap_minValue (cell_pattern c) = minValue props \<and>
            ap_negativeColor (cell_pattern c) = negativeColor props \<and>
            ap_positiveColor (cell_pattern c) = positiveColor props \<and>
            ap_maskUpperTri (cell_pattern c) =
              Some (case maskUpperTri props of None \<Rightarrow> True | Some b \<Rightarrow> b)) \<and>
         ap_maxValue (zoom_pattern (view_zoomed (AttentionHeads colorAttentionTensors props st)))
           = maxValue props \<and>
         ap_minValue (zoom_pattern (view_zoomed (AttentionHeads colorAttentionTensors props st)))
           = minValue props \<and>
         ap_negativeColor (zoom_pattern (view_zoomed (AttentionHeads colorAttentionTensors props st)))
           = negativeColor props \<and>
         ap_positiveColor (zoom_pattern (view_zoomed (AttentionHeads colorAttentionTensors props st)))
           = positiveColor props \<and>
         ap_maskUpperTri (zoom_pattern (view_zoomed (AttentionHeads colorAttentionTensors props st)))
           = Some (case maskUpperTri props of None \<Rightarrow> True | Some b \<Rightarrow> b) \<and>
         (f < length (attention props) \<longrightarrow>
            cell_key (view_selector (AttentionHeads colorAttentionTensors props st) ! f) = f \<and>
            cell_borderColor (view_selector (AttentionHeads colorAttentionTensors props st) ! f)
              = zoom_label_background (view_zoomed (AttentionHeads colorAttentionTensors props st)) \<and>
            cell_label_background (view_selector (AttentionHeads colorAttentionTensors props st) ! f)
              = zoom_label_background (view_zoomed (AttentionHeads colorAttentionTensors props st)) \<and>
            cell_label (view_selector (AttentionHeads colorAttentionTensors props st) ! f)
              = zoom_label (view_zoomed (AttentionHeads colorAttentionTensors props st)) \<and>
            ap_attention (cell_pattern (view_selector (AttentionHeads colorAttentionTensors props st) ! f))
              = ap_attention (zoom_pattern (view_zoomed (AttentionHeads colorAttentionTensors props st)))) \<and>
         focus (heads_hook first_render) = Some 0"
proof -
  let ?v = "AttentionHeads colorAttentionTensors props st"
  let ?mask = "Some (case maskUpperTri props of None \<Rightarrow> True | Some b \<Rightarrow> b)"
  have zoom: "view_zoomed ?v =
     \<lparr>zoom_title =
        (case at_index (headNames props) (Some f) of None \<Rightarrow> [] | Some name \<Rightarrow> name) @
          '' Zoomed'',
      zoom_label_background = attentionHeadColor (Num f) (Num (length (attention props))) None,
      zoom_label = at_index (headNames props) (Some f),
      zoom_pattern =
        \<lparr>ap_attention = at_index (attention props) (Some f),
         ap_tokens = tokens props,
         ap_showAxisLabels = None,
         ap_maxValue = maxValue props,
         ap_minValue = minValue props,
         ap_negativeColor = negativeColor props,
         ap_positiveColor = positiveColor props,
         ap_zoomed = Some True,
         ap_maskUpperTri = ?mask\<rparr>\<rparr>"
    using assms by (simp add: AttentionHeads_def Let_def index_number_def)
  have sel: "view_selector ?v =
     AttentionHeadsSelector (props\<lparr>maskUpperTri := ?mask\<rparr>) (headNames props) (Some f)"
    using assms by (simp add: AttentionHeads_def Let_def)
  have cells: "\<forall>c \<in> set (view_selector ?v).
            ap_maxValue (cell_pattern c) = maxValue props \<and>
            ap_minValue (cell_pattern c) = minValue props \<and>
            ap_negativeColor (cell_pattern c) = negativeColor props \<and>
            ap_positiveColor (cell_pattern c) = positiveColor props \<and>
            ap_maskUpperTri (cell_pattern c) = ?mask"
    unfolding sel by (auto simp: AttentionHeadsSelector_def Let_def)
  have focused_cell: "f < length (attention props) \<longrightarrow>
            cell_key (view_selector ?v ! f) = f \<and>
            cell_borderColor (view_selector ?v ! f) = zoom_label_background (view_zoomed ?v) \<and>
            cell_label_background (view_selector ?v ! f) = zoom_label_background (view_zoomed ?v) \<and>
            cell_label (view_selector ?v ! f) = zoom_label (view_zoomed ?v) \<and>
            ap_attention (cell_pattern (view_selector ?v ! f))
              = ap_attention (zoom_pattern (view_zoomed ?v))"
    unfolding sel zoom by (simp add: selector_nth at_index_def)
  have first: "focus (heads_hook first_render) = Some 0"
    by (simp add: first_render_def useHoverLock_def)
  show ?thesis
    using cells focused_cell first unfolding zoom by (simp add: at_index_def)
qed

theorem zoomed_view_follows_focus_witness:
  "focus (heads_hook (handle (HeadMouseEnter 0) (handle (HeadClick 1) first_render))) = Some 1 \<and>
   ap_attention (zoom_pattern (view_zoomed
     (AttentionHeads (\<lambda>t. ())
        \<lparr>attention = [[[1, 0], [0, 1]], [[0, 1], [1, 0 :: int]]],
         attentionHeadNames = None, maxValue = None, minValue = None,
         negativeColor = None, positiveColor = None, maskUpperTri = None,
         showAxisLabels = None, showTokens = None, tokens = [''a'', ''b'']\<rparr>
        (handle (HeadMouseEnter 0) (handle (HeadClick 1) first_render)))))
     = Some [[0, 1], [1, 0]] \<and>
   zoom_label_background (view_zoomed
     (AttentionHeads (\<lambda>t. ())
        \<lparr>attention = [[[1, 0], [0, 1]], [[0, 1], [1, 0 :: int]]],
         attentionHeadNames = None, maxValue = None, minValue = None,
         negativeColor = None, positiveColor = None, maskUpperTri = None,
         showAxisLabels = None, showTokens = None, tokens = [''a'', ''b'']\<rparr>
        (handle (HeadMouseEnter 0) (handle (HeadClick 1) first_render))))
     = ''hsla(180, 70%, 50%,  100%)'' \<and>
   cell_borderColor (view_selector
     (AttentionHeads (\<lambda>t. ())
        \<lparr>attention = [[[1, 0], [0, 1]], [[0, 1], [1, 0 :: int]]],
         attentionHeadNames = None, maxValue = None, minValue = None,
         negativeColor = None, positiveColor = None, maskUpperTri = None,
         showAxisLabels = None, showTokens = None, tokens = [''a'', ''b'']\<rparr>
        (handle (HeadMouseEnter 0) (handle (HeadClick 1) first_render))) ! 1)
     = ''hsla(180, 70%, 50%,  100%)'' \<and>
   map (\<lambda>c. ap_maskUpperTri (cell_pattern c)) (view_selector
     (AttentionHeads (\<lambda>t. ())
        \<lparr>attention = [[[1, 0], [0, 1]], [[0, 1], [1, 0 :: int]]],
         attentionHeadNames = None, maxValue = None, minValue = None,
         negativeColor = None, positiveColor = None, maskUpperTri = None,
         showAxisLabels = None, showTokens = None, tokens = [''a'', ''b'']\<rparr>
        (handle (HeadMouseEnter 0) (handle (HeadClick 1) first_render))))
     = [Some True, Some True]"
proof -
  let ?st = "handle (HeadMouseEnter 0) (handle (HeadClick 1) first_render)"
  let ?v = "AttentionHeads (\<lambda>t. ())
        \<lparr>attention = [[[1, 0], [0, 1]], [[0, 1], [1, 0 :: int]]],
         attentionHeadNames = None, maxValue = None, minValue = None,
         negativeColor = None, positiveColor = None, maskUpperTri = None,
         showAxisLabels = None, showTokens = None, tokens = [''a'', ''b'']\<rparr>
        ?st"
  have f: "focus (heads_hook ?st) = Some 1"
    by (simp add: first_render_def useHoverLock_def onClick_def onMouseEnter_def)
  from zoomed_view_follows_focus [OF f, where colorAttentionTensors = "\<lambda>t. ()"
      and props = "\<lparr>attention = [[[1, 0], [0, 1]], [[0, 1], [1, 0 :: int]]],
         attentionHeadNames = None, maxValue = None, minValue = None,
         negativeColor = None, positiveColor = None, maskUpperTri = None,
         showAxisLabels = None, showTokens = None, tokens = [''a'', ''b'']\<rparr>"]
  have zoom: "ap_attention (zoom_pattern (view_zoomed ?v)) = Some [[0, 1], [1, 0]] \<and>
      zoom_label_background (view_zoomed ?v) = ''hsla(180, 70%, 50%,  100%)'' \<and>
      cell_borderColor (view_selector ?v ! 1) = ''hsla(180, 70%, 50%,  100%)''"
    by (simp add: head_1_of_2)
  have cells: "map (\<lambda>c. ap_maskUpperTri (cell_pattern c)) (view_selector ?v)
      = [Some True, Some True]"
    by (simp add: AttentionHeads_def AttentionHeadsSelector_def Let_def upt_rec)
  from f zoom cells show ?thesis by blast
qed

end
